theory Spec2Isabelle
  imports Complex_Main "HOL-Library.Log_Nat"
begin

section \<open>JavaScript numbers\<close>

text \<open>
  Every numeric field of \<^verbatim>\<open>InodeStore.ts\<close> has the TypeScript type \<^verbatim>\<open>number\<close>, an
  IEEE 754 double. A number is modelled as a finite value, one of the two infinities,
  or NaN. The finite values that occur are those the program is given and those its
  operations produce; an operation computes the exact result of its arguments and
  rounds it to the nearest double, a tie to the even significand, a result beyond the
  largest double to an infinity. The two zeros are identified, so a division by zero
  takes its sign from the dividend alone.
\<close>

datatype number = Num real | Infinity | NegInfinity | NaN

text \<open>Rounding to the nearest integer, a tie to the even one.\<close>

definition roundHalfEven :: "real \<Rightarrow> int" where
  "roundHalfEven y =
     (let f = \<lfloor>y\<rfloor>
      in if y - of_int f < 1 / 2 then f
         else if 1 / 2 < y - of_int f then f + 1
         else if even f then f else f + 1)"

text \<open>
  The binary exponent of a value that is not zero: \<open>e\<close> with \<open>2\<^sup>e \<le> \<bar>x\<bar> < 2\<^sup>e\<^sup>+\<^sup>1\<close>,
  and \<open>-1022\<close> for the subnormal values below \<open>2\<^sup>-\<^sup>1\<^sup>0\<^sup>2\<^sup>2\<close>. The doubles with this
  exponent are the multiples of \<open>ulp x\<close>, which leaves 53 bits to the significand.
\<close>

definition exponent :: "real \<Rightarrow> int" where
  "exponent x =
     (if 1 \<le> \<bar>x\<bar> then bitlen \<lfloor>\<bar>x\<bar>\<rfloor> - 1
      else max (- 1022) (- bitlen (\<lceil>1 / \<bar>x\<bar>\<rceil> - 1)))"

definition ulp :: "real \<Rightarrow> real" where
  "ulp x = 2 powi (exponent x - 52)"

definition roundDouble :: "real \<Rightarrow> number" where
  "roundDouble x =
     (if x = 0 then Num 0
      else (let r = of_int (roundHalfEven (x / ulp x)) * ulp x
            in if 2 ^ 1024 \<le> r then Infinity
               else if r \<le> - (2 ^ 1024) then NegInfinity
               else Num r))"

text \<open>The infinity with the sign of a finite factor; NaN when the factor is zero.\<close>

definition signedInfinity :: "real \<Rightarrow> number" where
  "signedInfinity r = (if 0 < r then Infinity else if r < 0 then NegInfinity else NaN)"

text \<open>The operator \<^verbatim>\<open>*\<close>.\<close>

fun mul :: "number \<Rightarrow> number \<Rightarrow> number" where
  "mul (Num a) (Num b) = roundDouble (a * b)"
| "mul NaN _ = NaN"
| "mul _ NaN = NaN"
| "mul (Num a) Infinity = signedInfinity a"
| "mul (Num a) NegInfinity = signedInfinity (- a)"
| "mul Infinity (Num b) = signedInfinity b"
| "mul NegInfinity (Num b) = signedInfinity (- b)"
| "mul Infinity Infinity = Infinity"
| "mul Infinity NegInfinity = NegInfinity"
| "mul NegInfinity Infinity = NegInfinity"
| "mul NegInfinity NegInfinity = Infinity"

text \<open>The operator \<^verbatim>\<open>/\<close>.\<close>

fun divide :: "number \<Rightarrow> number \<Rightarrow> number" where
  "divide (Num a) (Num b) = (if b = 0 then signedInfinity a else roundDouble (a / b))"
| "divide NaN _ = NaN"
| "divide _ NaN = NaN"
| "divide (Num a) Infinity = Num 0"
| "divide (Num a) NegInfinity = Num 0"
| "divide Infinity (Num b) = (if b < 0 then NegInfinity else Infinity)"
| "divide NegInfinity (Num b) = (if b < 0 then Infinity else NegInfinity)"
| "divide Infinity Infinity = NaN"
| "divide Infinity NegInfinity = NaN"
| "divide NegInfinity Infinity = NaN"
| "divide NegInfinity NegInfinity = NaN"

text \<open>\<^verbatim>\<open>Math.ceil\<close>.\<close>

fun Math_ceil :: "number \<Rightarrow> number" where
  "Math_ceil (Num a) = Num (of_int \<lceil>a\<rceil>)"
| "Math_ceil Infinity = Infinity"
| "Math_ceil NegInfinity = NegInfinity"
| "Math_ceil NaN = NaN"

text \<open>The operator \<^verbatim>\<open>===\<close> on numbers: NaN is equal to nothing, itself included.\<close>

fun strictEquals :: "number \<Rightarrow> number \<Rightarrow> bool" where
  "strictEquals NaN _ = False"
| "strictEquals _ NaN = False"
| "strictEquals a b = (a = b)"

text \<open>The operator \<^verbatim>\<open><=\<close> on numbers: a comparison with NaN is false.\<close>

fun lessEq :: "number \<Rightarrow> number \<Rightarrow> bool" where
  "lessEq NaN _ = False"
| "lessEq _ NaN = False"
| "lessEq (Num a) (Num b) = (a \<le> b)"
| "lessEq NegInfinity _ = True"
| "lessEq _ Infinity = True"
| "lessEq Infinity _ = False"
| "lessEq _ NegInfinity = False"

section \<open>The collaborator: \<^verbatim>\<open>InodeDatabase\<close> of \<^verbatim>\<open>../lib/db\<close>\<close>

text \<open>
  The store reads \<^verbatim>\<open>numSynced\<close> and \<^verbatim>\<open>total\<close> of a sync state, and \<^verbatim>\<open>data\<close> and
  \<^verbatim>\<open>total\<close> of a page of results. The type of an inode is a parameter. A rejection
  reason and a thrown \<^verbatim>\<open>Error\<close> are values of one type.
\<close>

datatype error = Error string

record SyncState =
  numSynced :: number
  total :: number

record 'inode Pageable =
  data :: "'inode list"
  total :: number

text \<open>
  What the database answers to the calls of the store: a promise that rejects is
  \<open>Inl\<close>, one that resolves is \<open>Inr\<close>. The handle the store keeps is the database
  constructed for a contract address.
\<close>

record 'inode InodeDatabase =
  getSyncState :: "error + SyncState"
  db_search :: "string \<Rightarrow> number \<Rightarrow> number \<Rightarrow> error + 'inode Pageable"
  db_latest :: "number \<Rightarrow> number \<Rightarrow> error + 'inode Pageable"
  clearData :: "error + unit"

datatype handle = InodeDatabase string

text \<open>The calls the store issues to the database, with their arguments.\<close>

datatype db_call =
    GetSyncState
  | StartSync
  | Search string number number
  | Latest number number
  | ClearData

datatype console_entry = Warn string error

section \<open>The store\<close>

record SearchParams =
  query :: string
  page :: number

record GetLatestParams =
  page :: number

record UpdateSyncAction =
  inodesSynced :: number
  totalInodes :: number

record 'inode UpdateSearchResultsAction =
  data :: "'inode list"
  total :: number

record ('inode, 'root) InodeStore =
  searchResults :: "'inode list"
  pages :: number
  resultsPerPage :: number
  inodesSynced :: number
  totalInodesToSync :: number
  rootStore :: 'root
  db :: handle

text \<open>The field initialisers, then the body of the constructor.\<close>

definition new_InodeStore :: "'root \<Rightarrow> string \<Rightarrow> number \<Rightarrow> ('inode, 'root) InodeStore" where
  "new_InodeStore rootStore' contractAddress resultsPerPage' =
     \<lparr> searchResults = [],
       pages = Num 1,
       resultsPerPage = resultsPerPage',
       inodesSynced = Num 0,
       totalInodesToSync = Infinity,
       rootStore = rootStore',
       db = InodeDatabase contractAddress \<rparr>"

definition isDbSyncing :: "('inode, 'root) InodeStore \<Rightarrow> bool" where
  "isDbSyncing this =
     strictEquals (InodeStore.inodesSynced this) (totalInodesToSync this)"

definition updateSyncProgress ::
  "('inode, 'root) InodeStore \<Rightarrow> UpdateSyncAction \<Rightarrow> ('inode, 'root) InodeStore" where
  "updateSyncProgress this params =
     this\<lparr> InodeStore.inodesSynced := UpdateSyncAction.inodesSynced params,
           totalInodesToSync := totalInodes params \<rparr>"

definition updateSearchResults ::
  "('inode, 'root) InodeStore \<Rightarrow> 'inode UpdateSearchResultsAction
     \<Rightarrow> ('inode, 'root) InodeStore" where
  "updateSearchResults this params =
     this\<lparr> searchResults := UpdateSearchResultsAction.data params,
           pages := Math_ceil (divide (UpdateSearchResultsAction.total params)
                                       (resultsPerPage this)) \<rparr>"

text \<open>
  An asynchronous method yields the calls it issued to the database, the settlement
  of its promise (\<open>Inl\<close> rejected, \<open>Inr\<close> resolved) and the store afterwards. An
  \<^verbatim>\<open>await\<close> of a rejected promise rejects the method's own promise at once: the
  statements after it are not run. A method is followed from its call to the
  settlement of its promise as one step: what other operations do to the store while
  it is suspended at its \<^verbatim>\<open>await\<close> is their effect, not part of its own.
\<close>

record ('inode, 'root) effect =
  dispatched :: "db_call list"
  settled :: "error + unit"
  store :: "('inode, 'root) InodeStore"

definition search ::
  "'inode InodeDatabase \<Rightarrow> ('inode, 'root) InodeStore \<Rightarrow> SearchParams
     \<Rightarrow> ('inode, 'root) effect" where
  "search database this params =
     (let limit = resultsPerPage this;
          offset = mul (resultsPerPage this) (SearchParams.page params)
      in case db_search database (query params) limit offset of
           Inl reason \<Rightarrow>
             \<lparr> dispatched = [Search (query params) limit offset],
               settled = Inl reason,
               store = this \<rparr>
         | Inr results \<Rightarrow>
             \<lparr> dispatched = [Search (query params) limit offset],
               settled = Inr (),
               store = updateSearchResults this
                 \<lparr> data = Pageable.data results, total = Pageable.total results \<rparr> \<rparr>)"

definition getLatest ::
  "'inode InodeDatabase \<Rightarrow> ('inode, 'root) InodeStore \<Rightarrow> GetLatestParams
     \<Rightarrow> ('inode, 'root) effect" where
  "getLatest database this params =
     (let limit = resultsPerPage this;
          offset = mul (resultsPerPage this) (GetLatestParams.page params)
      in case db_latest database limit offset of
           Inl reason \<Rightarrow>
             \<lparr> dispatched = [Latest limit offset],
               settled = Inl reason,
               store = this \<rparr>
         | Inr results \<Rightarrow>
             \<lparr> dispatched = [Latest limit offset],
               settled = Inr (),
               store = updateSearchResults this
                 \<lparr> data = Pageable.data results, total = Pageable.total results \<rparr> \<rparr>)"

definition clear ::
  "'inode InodeDatabase \<Rightarrow> ('inode, 'root) InodeStore \<Rightarrow> ('inode, 'root) effect" where
  "clear database this =
     (case clearData database of
        Inl reason \<Rightarrow>
          \<lparr> dispatched = [ClearData], settled = Inl reason, store = this \<rparr>
      | Inr _ \<Rightarrow>
          \<lparr> dispatched = [ClearData], settled = Inr (),
            store = this\<lparr> searchResults := [] \<rparr> \<rparr>)"

text \<open>
  The callback that \<^verbatim>\<open>init\<close> hands to \<^verbatim>\<open>startSync\<close>. Both arguments are optional;
  an \<^verbatim>\<open>Error\<close> object and a sync state object are truthy, so \<^verbatim>\<open>if (err)\<close> and
  \<^verbatim>\<open>if (!syncState)\<close> test presence. The result is how the callback completes
  (\<open>Inl\<close> when it throws), what it wrote to the console and the store afterwards.
\<close>

definition startSync_callback ::
  "('inode, 'root) InodeStore \<Rightarrow> error option \<Rightarrow> SyncState option
     \<Rightarrow> (error + unit) \<times> console_entry list \<times> ('inode, 'root) InodeStore" where
  "startSync_callback this err syncState =
     (case err of
        Some e \<Rightarrow> (Inr (), [Warn ''Error while syncing:'' e], this)
      | None \<Rightarrow>
          (case syncState of
             None \<Rightarrow> (Inl (Error ''Result must exist''), [], this)
           | Some state \<Rightarrow>
               (Inr (), [],
                updateSyncProgress this
                  \<lparr> UpdateSyncAction.inodesSynced = numSynced state,
                    totalInodes = SyncState.total state \<rparr>)))"

text \<open>
  The asynchronous closure \<^verbatim>\<open>initiator\<close> of \<^verbatim>\<open>init\<close>: it awaits the sync state,
  applies it and registers the callback.
\<close>

definition initiator ::
  "'inode InodeDatabase \<Rightarrow> ('inode, 'root) InodeStore \<Rightarrow> ('inode, 'root) effect" where
  "initiator database this =
     (case getSyncState database of
        Inl reason \<Rightarrow>
          \<lparr> dispatched = [GetSyncState], settled = Inl reason, store = this \<rparr>
      | Inr syncState \<Rightarrow>
          \<lparr> dispatched = [GetSyncState, StartSync],
            settled = Inr (),
            store = updateSyncProgress this
              \<lparr> UpdateSyncAction.inodesSynced = numSynced syncState,
                totalInodes = SyncState.total syncState \<rparr> \<rparr>)"

text \<open>
  \<^verbatim>\<open>init\<close> is synchronous and returns \<^verbatim>\<open>void\<close>: it calls \<^verbatim>\<open>initiator()\<close> and drops
  the promise. The first component is how \<^verbatim>\<open>init\<close> itself completes for its caller,
  the second is the effect of the closure, whose promise nobody holds.
\<close>

definition init ::
  "'inode InodeDatabase \<Rightarrow> ('inode, 'root) InodeStore
     \<Rightarrow> (error + unit) \<times> ('inode, 'root) effect" where
  "init database this = (let floating = initiator database this in (Inr (), floating))"

section \<open>Runs of the store\<close>

text \<open>
  What can happen to a store: a call of one of its four public methods, against the
  answers the database gives at that moment, or an invocation of the registered
  callback by the database. A run applies a sequence of them in order.
\<close>

datatype 'inode operation =
    Init "'inode InodeDatabase"
  | SearchFor "'inode InodeDatabase" SearchParams
  | GetLatest "'inode InodeDatabase" GetLatestParams
  | Clear "'inode InodeDatabase"
  | SyncEvent "error option" "SyncState option"

fun perform ::
  "('inode, 'root) InodeStore \<Rightarrow> 'inode operation \<Rightarrow> ('inode, 'root) InodeStore" where
  "perform this (Init database) = store (snd (init database this))"
| "perform this (SearchFor database params) = store (search database this params)"
| "perform this (GetLatest database params) = store (getLatest database this params)"
| "perform this (Clear database) = store (clear database this)"
| "perform this (SyncEvent err syncState) =
     snd (snd (startSync_callback this err syncState))"

definition run ::
  "('inode, 'root) InodeStore \<Rightarrow> 'inode operation list \<Rightarrow> ('inode, 'root) InodeStore" where
  "run this ops = foldl perform this ops"

text \<open>
  The invariant of the specification, \<open>synced \<le> total\<close> whenever \<open>total\<close> is finite,
  on a pair of numbers, on a store and on a sync state of the database; and the
  operations whose sync state, if they deliver one, satisfies it.
\<close>

fun withinTotal :: "number \<Rightarrow> number \<Rightarrow> bool" where
  "withinTotal synced (Num t) = lessEq synced (Num t)"
| "withinTotal synced _ = True"

definition syncedWithinTotal :: "('inode, 'root) InodeStore \<Rightarrow> bool" where
  "syncedWithinTotal this =
     withinTotal (InodeStore.inodesSynced this) (totalInodesToSync this)"

definition stateWithinTotal :: "SyncState \<Rightarrow> bool" where
  "stateWithinTotal state = withinTotal (numSynced state) (SyncState.total state)"

fun deliversWithinTotal :: "'inode operation \<Rightarrow> bool" where
  "deliversWithinTotal (Init database) =
     (case getSyncState database of Inl _ \<Rightarrow> True | Inr state \<Rightarrow> stateWithinTotal state)"
| "deliversWithinTotal (SyncEvent None (Some state)) = stateWithinTotal state"
| "deliversWithinTotal _ = True"

section \<open>Sample collaborators\<close>

text \<open>
  A database that answers every call: 5 of 20 inodes synced, and a page of seven
  inodes out of 27 for any query. And one that rejects every call.
\<close>

definition answeringDatabase :: "nat InodeDatabase" where
  "answeringDatabase =
     \<lparr> getSyncState = Inr \<lparr> numSynced = Num 5, SyncState.total = Num 20 \<rparr>,
       db_search = (\<lambda>q limit offset.
          Inr \<lparr> Pageable.data = [1, 2, 3, 4, 5, 6, 7], Pageable.total = Num 27 \<rparr>),
       db_latest = (\<lambda>limit offset.
          Inr \<lparr> Pageable.data = [1, 2, 3, 4, 5, 6, 7], Pageable.total = Num 27 \<rparr>),
       clearData = Inr () \<rparr>"

definition rejectingDatabase :: "nat InodeDatabase" where
  "rejectingDatabase =
     \<lparr> getSyncState = Inl (Error ''unavailable''),
       db_search = (\<lambda>q limit offset. Inl (Error ''unavailable'')),
       db_latest = (\<lambda>limit offset. Inl (Error ''unavailable'')),
       clearData = Inl (Error ''unavailable'') \<rparr>"

text \<open>A store with ten results per page, and the calls to it used as examples.\<close>

definition freshStore :: "(nat, unit) InodeStore" where
  "freshStore = new_InodeStore () ''0xabc'' (Num 10)"

text \<open>
  Stores whose page size is a whole number below \<open>2\<^sup>5\<^sup>3\<close> while the offset of a
  page, or the total of a result, is not.
\<close>

definition wideStore :: "(nat, unit) InodeStore" where
  "wideStore = new_InodeStore () ''0xabc'' (Num 94906267)"

definition wideSearch :: SearchParams where
  "wideSearch = \<lparr> query = ''cats'', page = Num 94906267 \<rparr>"

definition wideLatest :: GetLatestParams where
  "wideLatest = \<lparr> page = Num 94906267 \<rparr>"

definition tripleStore :: "(nat, unit) InodeStore" where
  "tripleStore = new_InodeStore () ''0xabc'' (Num 3)"

definition thirdPage :: GetLatestParams where
  "thirdPage = \<lparr> page = Num 2 \<rparr>"

definition catsThirdPage :: SearchParams where
  "catsThirdPage = \<lparr> query = ''cats'', page = Num 2 \<rparr>"

definition sevenInodes :: "nat list" where
  "sevenInodes = [1, 2, 3, 4, 5, 6, 7]"

section \<open>Auxiliary facts\<close>

lemma strictEquals_iff: "strictEquals a b \<longleftrightarrow> a = b \<and> a \<noteq> NaN"
  by (cases a; cases b) auto

subsection \<open>Rounding\<close>

lemma roundHalfEven_of_int: "roundHalfEven (of_int n) = n"
  by (simp add: roundHalfEven_def)

lemma roundHalfEven_error: "\<bar>of_int (roundHalfEven y) - y\<bar> \<le> 1 / 2"
  unfolding roundHalfEven_def Let_def by (auto; linarith)

lemma pow2_less_imp: "(2::real) powi m < 2 powi n \<Longrightarrow> m < n"
proof (rule ccontr)
  assume a: "(2::real) powi m < 2 powi n" and "\<not> m < n"
  then have "n \<le> m" by simp
  then have "(2::real) powi n \<le> 2 powi m" by (rule power_int_increasing) simp
  with a show False by simp
qed

lemma exponent_large:
  assumes "1 \<le> \<bar>x\<bar>"
  shows "0 \<le> exponent x" and "2 powi exponent x \<le> \<bar>x\<bar>" and "\<bar>x\<bar> < 2 powi (exponent x + 1)"
proof -
  let ?m = "\<lfloor>\<bar>x\<bar>\<rfloor>"
  have m: "0 < ?m" using assms by linarith
  have e: "exponent x = bitlen ?m - 1" using assms by (simp add: exponent_def)
  have b1: "bitlen ?m \<ge> 1" using m by (simp add: bitlen_alt_def)
  then show "0 \<le> exponent x" using e by simp
  from bitlen_bounds [OF m] have lo: "2 ^ nat (bitlen ?m - 1) \<le> ?m" and hi: "?m < 2 ^ nat (bitlen ?m)"
    by simp_all
  have "2 powi exponent x = (2::real) ^ nat (bitlen ?m - 1)"
    using b1 e by (simp add: power_int_def)
  also have "\<dots> = of_int (2 ^ nat (bitlen ?m - 1))" by simp
  also have "\<dots> \<le> of_int ?m" using lo by (simp only: of_int_le_iff)
  also have "\<dots> \<le> \<bar>x\<bar>" by simp
  finally show "2 powi exponent x \<le> \<bar>x\<bar>" .
  have "?m + 1 \<le> 2 ^ nat (bitlen ?m)" using hi by simp
  then have "of_int (?m + 1) \<le> (of_int (2 ^ nat (bitlen ?m)) :: real)" by (simp only: of_int_le_iff)
  then have up: "of_int ?m + 1 \<le> (2::real) ^ nat (bitlen ?m)" by simp
  have below: "\<bar>x\<bar> < of_int ?m + 1" by linarith
  have "2 powi (exponent x + 1) = (2::real) ^ nat (bitlen ?m)"
    using b1 e by (simp add: power_int_def)
  with up below show "\<bar>x\<bar> < 2 powi (exponent x + 1)" by linarith
qed

lemma exponent_small:
  assumes "\<bar>x\<bar> < 1" and "2 powi (- 1022) \<le> \<bar>x\<bar>"
  shows "- 1022 \<le> exponent x" and "2 powi exponent x \<le> \<bar>x\<bar>" and "\<bar>x\<bar> < 2 powi (exponent x + 1)"
proof -
  let ?a = "\<bar>x\<bar>"
  let ?y = "1 / ?a"
  let ?m = "\<lceil>?y\<rceil> - 1"
  let ?k = "bitlen ?m"
  have a: "0 < ?a" using assms(2) by (smt (verit) zero_less_power_int)
  have y: "1 < ?y" using assms(1) a by simp
  have m: "0 < ?m" using y by linarith
  have k1: "1 \<le> ?k" using m by (simp add: bitlen_alt_def)
  from bitlen_bounds [OF m] have lo: "2 ^ nat (?k - 1) \<le> ?m" and hi: "?m < 2 ^ nat ?k"
    by simp_all
  from lo have "(2::int) ^ nat (?k - 1) < \<lceil>?y\<rceil>" by linarith
  then have ylo: "(2::real) ^ nat (?k - 1) < ?y"
    by (metis less_ceiling_iff of_int_numeral of_int_power)
  from hi have "\<lceil>?y\<rceil> \<le> 2 ^ nat ?k" by linarith
  then have yhi: "?y \<le> (2::real) ^ nat ?k"
    by (metis ceiling_le_iff of_int_numeral of_int_power)
  have alo: "1 / 2 ^ nat ?k \<le> ?a"
    using yhi a by (simp add: field_simps)
  have ahi: "?a < 1 / 2 ^ nat (?k - 1)"
    using ylo a by (simp add: field_simps)
  have p1: "2 powi (- ?k) = 1 / (2::real) ^ nat ?k"
    using k1 by (simp add: power_int_def field_simps)
  have p2: "2 powi (- ?k + 1) = 1 / (2::real) ^ nat (?k - 1)"
    using k1 by (auto simp add: power_int_def field_simps nat_diff_distrib)
  have "(2::real) powi (- 1022) < 2 powi (- ?k + 1)"
    using assms(2) ahi p2 by linarith
  then have "- 1022 < - ?k + 1"
    by (rule pow2_less_imp)
  then have e: "exponent x = - ?k"
    using assms(1) by (simp add: exponent_def)
  show "- 1022 \<le> exponent x" using e \<open>- 1022 < - ?k + 1\<close> by simp
  show "2 powi exponent x \<le> \<bar>x\<bar>" using e p1 alo by simp
  show "\<bar>x\<bar> < 2 powi (exponent x + 1)" using e p2 ahi by simp
qed


lemma exponent_bounds:
  assumes "2 powi (- 1022) \<le> \<bar>x\<bar>"
  shows "- 1022 \<le> exponent x" and "2 powi exponent x \<le> \<bar>x\<bar>"
    and "\<bar>x\<bar> < 2 powi (exponent x + 1)"
proof -
  have "- 1022 \<le> exponent x \<and> 2 powi exponent x \<le> \<bar>x\<bar> \<and> \<bar>x\<bar> < 2 powi (exponent x + 1)"
  proof (cases "1 \<le> \<bar>x\<bar>")
    case True
    from exponent_large [OF True] show ?thesis by simp
  next
    case False
    then have "\<bar>x\<bar> < 1" by simp
    from exponent_small [OF this assms] show ?thesis by simp
  qed
  then show "- 1022 \<le> exponent x" and "2 powi exponent x \<le> \<bar>x\<bar>"
    and "\<bar>x\<bar> < 2 powi (exponent x + 1)" by simp_all
qed

lemma exponent_eqI:
  assumes lo: "2 powi e \<le> \<bar>x\<bar>" and hi: "\<bar>x\<bar> < 2 powi (e + 1)" and e: "- 1022 \<le> e"
  shows "exponent x = e"
proof -
  have "(2::real) powi (- 1022) \<le> 2 powi e"
    using e by (intro power_int_increasing) simp_all
  with lo have n: "2 powi (- 1022) \<le> \<bar>x\<bar>" by linarith
  note b = exponent_bounds [OF n]
  from b(2) hi have "(2::real) powi exponent x < 2 powi (e + 1)" by linarith
  then have "exponent x < e + 1" by (rule pow2_less_imp)
  moreover from lo b(3) have "(2::real) powi e < 2 powi (exponent x + 1)" by linarith
  then have "e < exponent x + 1" by (rule pow2_less_imp)
  ultimately show ?thesis by simp
qed

lemma ulp_pos: "0 < ulp x"
  by (simp add: ulp_def)

text \<open>
  A value that is a whole multiple of its unit in the last place, below the overflow
  threshold, is a double and rounds to itself.
\<close>

lemma roundDouble_exact:
  assumes "x / ulp x = of_int m" and "\<bar>x\<bar> < 2 ^ 1024"
  shows "roundDouble x = Num x"
proof (cases "x = 0")
  case True
  then show ?thesis by (simp add: roundDouble_def)
next
  case False
  have "roundHalfEven (x / ulp x) = m"
    using assms(1) by (simp only: roundHalfEven_of_int)
  moreover have "of_int m * ulp x = x"
    using assms(1) ulp_pos [of x] by (simp add: field_simps)
  ultimately have "of_int (roundHalfEven (x / ulp x)) * ulp x = x" by simp
  moreover have "\<not> 2 ^ 1024 \<le> x" and "\<not> x \<le> - (2 ^ 1024)"
    using assms(2) by (simp_all add: abs_less_iff)
  ultimately show ?thesis
    using False by (simp add: roundDouble_def Let_def)
qed

lemma roundDouble_of_int:
  assumes "\<bar>n\<bar> \<le> 2 ^ 53"
  shows "roundDouble (of_int n) = Num (of_int n)"
proof (cases "n = 0")
  case True
  then show ?thesis by (simp add: roundDouble_def)
next
  case False
  let ?x = "real_of_int n"
  have one: "1 \<le> \<bar>?x\<bar>" using False by linarith
  note b = exponent_large [OF one]
  from assms have "real_of_int \<bar>n\<bar> \<le> of_int (2 ^ 53)" by (simp only: of_int_le_iff)
  then have le: "\<bar>?x\<bar> \<le> 2 ^ 53" by simp
  have "(2::real) powi exponent ?x < 2 powi 54"
    using b(2) le by simp
  then have e54: "exponent ?x < 54" by (rule pow2_less_imp)
  have "\<exists>m. ?x / ulp ?x = of_int m"
  proof (cases "exponent ?x \<le> 52")
    case True
    then have "ulp ?x = 1 / 2 ^ nat (52 - exponent ?x)"
      by (simp add: ulp_def power_int_def field_simps)
    then have "?x / ulp ?x = of_int (n * 2 ^ nat (52 - exponent ?x))" by simp
    then show ?thesis ..
  next
    case False
    with e54 have e: "exponent ?x = 53" by simp
    with b(2) le have "\<bar>?x\<bar> = 2 ^ 53" by simp
    then have "real_of_int \<bar>n\<bar> = of_int (2 ^ 53)" by simp
    then have "\<bar>n\<bar> = 2 ^ 53" by (simp only: of_int_eq_iff)
    then have "n = 2 ^ 53 \<or> n = - (2 ^ 53)" by linarith
    then have "n = 2 * (n div 2)" by (elim disjE) simp_all
    then have "?x = 2 * of_int (n div 2)" by (metis of_int_mult of_int_numeral)
    moreover have "ulp ?x = 2" using e by (simp add: ulp_def)
    ultimately have "?x / ulp ?x = of_int (n div 2)" by simp
    then show ?thesis ..
  qed
  then obtain m where m: "?x / ulp ?x = of_int m" ..
  have "\<bar>?x\<bar> < 2 ^ 1024" using le by (rule le_less_trans) simp
  with m show ?thesis by (rule roundDouble_exact)
qed


lemma roundDouble_near:
  assumes pos: "0 < x" and lo: "2 powi (- 1022) \<le> x" and hi: "x < 2 ^ 1023"
  obtains r where "roundDouble x = Num r" and "\<bar>r - x\<bar> \<le> x / 2 ^ 53"
proof -
  let ?u = "ulp x"
  let ?r = "of_int (roundHalfEven (x / ?u)) * ?u"
  have ax: "\<bar>x\<bar> = x" using pos by simp
  from exponent_bounds(2) [of x] lo ax have e: "2 powi exponent x \<le> x" by simp
  have u: "?u = 2 powi exponent x / 2 ^ 52"
    by (simp add: ulp_def power_int_diff)
  then have u_le: "?u \<le> x / 2 ^ 52"
    using e by (simp add: divide_right_mono)
  have "?r - x = (of_int (roundHalfEven (x / ?u)) - x / ?u) * ?u"
    using ulp_pos [of x] by (simp add: field_simps)
  then have "\<bar>?r - x\<bar> = \<bar>of_int (roundHalfEven (x / ?u)) - x / ?u\<bar> * ?u"
    using ulp_pos [of x] by (simp add: abs_mult)
  also have "\<dots> \<le> (1 / 2) * ?u"
    using roundHalfEven_error [of "x / ?u"] ulp_pos [of x] by (intro mult_right_mono) simp_all
  also have "\<dots> \<le> (1 / 2) * (x / 2 ^ 52)"
    using u_le by simp
  also have "\<dots> = x / 2 ^ 53" by simp
  finally have near: "\<bar>?r - x\<bar> \<le> x / 2 ^ 53" .
  have "x / 2 ^ 53 \<le> x" using pos by (simp add: field_simps)
  with near have "?r \<le> 2 * x" and "- (2 * x) \<le> ?r" using pos by linarith+
  moreover have "2 * x < 2 ^ 1024" using hi by simp
  ultimately have "\<not> 2 ^ 1024 \<le> ?r" and "\<not> ?r \<le> - (2 ^ 1024)" using pos by linarith+
  then have "roundDouble x = Num ?r"
    using pos by (simp add: roundDouble_def Let_def)
  then show thesis using near by (rule that)
qed

lemma ceiling_roundDouble_quotient:
  fixes t P :: int
  assumes t: "0 \<le> t" "t < 2 ^ 53" and P: "0 < P" "P \<le> 2 ^ 53"
  obtains r where "roundDouble (of_int t / of_int P) = Num r"
    and "\<lceil>r\<rceil> = \<lceil>real_of_int t / of_int P\<rceil>"
proof (cases "P dvd t")
  case True
  then obtain c where c: "t = P * c" ..
  with t P have c0: "0 \<le> c" by (simp add: zero_le_mult_iff)
  have "c \<le> P * c" using P c0 by (simp add: mult_le_cancel_right1)
  with c t have "\<bar>c\<bar> \<le> 2 ^ 53" using c0 by simp
  then have "roundDouble (of_int c) = Num (of_int c)" by (rule roundDouble_of_int)
  moreover have x: "real_of_int t / of_int P = of_int c" using c P by simp
  ultimately have "roundDouble (of_int t / of_int P) = Num (of_int c)" by simp
  moreover have "\<lceil>real_of_int c\<rceil> = \<lceil>real_of_int t / of_int P\<rceil>" using x by simp
  ultimately show thesis by (rule that)
next
  case False
  let ?x = "real_of_int t / of_int P"
  let ?c = "\<lceil>?x\<rceil>"
  have t1: "1 \<le> t" using False t by (cases "t = 0") simp_all
  have Pr: "0 < real_of_int P" using P by simp
  have xpos: "0 < ?x" using t1 Pr by simp
  from t(2) have "real_of_int t < of_int (2 ^ 53)" by (simp only: of_int_less_iff)
  then have "real_of_int t < 2 ^ 53" by simp
  moreover have "real_of_int P \<ge> 1" using P by simp
  ultimately have xt: "?x \<le> real_of_int t" and xhi: "?x < 2 ^ 53"
    using t1 Pr by (simp_all add: field_simps)
  have xlo: "2 powi (- 1022) \<le> ?x"
  proof -
    have "(2::real) powi (- 1022) \<le> 2 powi (- 53)"
      by (intro power_int_increasing) simp_all
    also have "\<dots> = 1 / 2 ^ 53" by (simp add: power_int_minus field_simps)
    also have "\<dots> \<le> 1 / real_of_int P"
    proof -
      from P(2) have "real_of_int P \<le> of_int (2 ^ 53)" by (simp only: of_int_le_iff)
      then have "real_of_int P \<le> 2 ^ 53" by simp
      with Pr show ?thesis by (simp add: field_simps)
    qed
    also have "\<dots> \<le> ?x" using t1 Pr by (simp add: field_simps)
    finally show ?thesis .
  qed
  have "?x < 2 ^ 1023" using xhi by (rule less_trans) simp
  with xpos xlo obtain r where r: "roundDouble ?x = Num r" and near: "\<bar>r - ?x\<bar> \<le> ?x / 2 ^ 53"
    by (rule roundDouble_near)
  have "?x / 2 ^ 53 < 1 / real_of_int P"
    using \<open>real_of_int t < 2 ^ 53\<close> Pr by (simp add: field_simps)
  with near have close: "\<bar>r - ?x\<bar> < 1 / real_of_int P" by linarith
  have notint: "real_of_int ?c \<noteq> ?x"
  proof
    assume a: "real_of_int ?c = ?x"
    have "real_of_int P * real_of_int ?c = real_of_int P * ?x" by (simp only: a)
    also have "\<dots> = real_of_int t" using Pr by simp
    finally have "real_of_int (P * ?c) = real_of_int t" by simp
    then have "P * ?c = t" by (simp only: of_int_eq_iff)
    with False show False by (metis dvd_triv_left)
  qed
  have up: "?x < real_of_int ?c" using notint le_of_int_ceiling [of ?x] by linarith
  then have "real_of_int t < real_of_int (?c * P)" using Pr by (simp add: field_simps)
  then have "t < ?c * P" by (simp only: of_int_less_iff)
  then have "t + 1 \<le> ?c * P" by simp
  then have "real_of_int (t + 1) \<le> real_of_int (?c * P)" by (simp only: of_int_le_iff)
  then have "real_of_int (t + 1) / real_of_int P \<le> real_of_int (?c * P) / real_of_int P"
    using Pr by (intro divide_right_mono) simp_all
  moreover have "real_of_int (t + 1) / real_of_int P = ?x + 1 / real_of_int P"
    by (simp add: add_divide_distrib)
  moreover have "real_of_int (?c * P) / real_of_int P = real_of_int ?c"
    using Pr by simp
  ultimately have above: "?x + 1 / real_of_int P \<le> real_of_int ?c"
    by (simp only:)
  have "real_of_int ?c - 1 < ?x" by linarith
  then have "real_of_int ((?c - 1) * P) < real_of_int t" using Pr by (simp add: field_simps)
  then have "(?c - 1) * P < t" by (simp only: of_int_less_iff)
  then have "(?c - 1) * P + 1 \<le> t" by simp
  then have "real_of_int ((?c - 1) * P + 1) \<le> real_of_int t" by (simp only: of_int_le_iff)
  then have "real_of_int ((?c - 1) * P + 1) / real_of_int P \<le> ?x"
    using Pr by (intro divide_right_mono) simp_all
  moreover have "real_of_int ((?c - 1) * P + 1) / real_of_int P
      = real_of_int ?c - 1 + 1 / real_of_int P"
    using Pr by (simp add: add_divide_distrib)
  ultimately have below: "real_of_int ?c - 1 + 1 / real_of_int P \<le> ?x"
    by (simp only:)
  from close above below have "real_of_int ?c - 1 < r" and "r \<le> real_of_int ?c"
    by linarith+
  then have "\<lceil>r\<rceil> = ?c" by (simp add: ceiling_unique)
  with r show thesis by (rule that)
qed

text \<open>
  Products and quotients of whole numbers: a product of magnitude at most \<open>2\<^sup>5\<^sup>3\<close> is
  exact; the rounded quotient of a dividend below \<open>2\<^sup>5\<^sup>3\<close> by a divisor of at most
  \<open>2\<^sup>5\<^sup>3\<close> has the ceiling of the exact quotient.
\<close>

lemma mul_whole:
  fixes a b :: int
  assumes "\<bar>a * b\<bar> \<le> 2 ^ 53"
  shows "mul (Num (of_int a)) (Num (of_int b)) = Num (of_int (a * b))"
  using roundDouble_of_int [OF assms] by simp

lemma Math_ceil_divide_whole:
  fixes t P :: int
  assumes "0 \<le> t" and "t < 2 ^ 53" and "0 < P" and "P \<le> 2 ^ 53"
  shows "Math_ceil (divide (Num (of_int t)) (Num (of_int P)))
           = Num (of_int \<lceil>real_of_int t / of_int P\<rceil>)"
proof -
  from assms obtain r where "roundDouble (of_int t / of_int P) = Num r"
    and "\<lceil>r\<rceil> = \<lceil>real_of_int t / of_int P\<rceil>"
    by (rule ceiling_roundDouble_quotient)
  with assms(3) show ?thesis by simp
qed

text \<open>The rounding of a value whose exponent is known.\<close>

lemma roundDouble_at:
  assumes "2 powi e \<le> \<bar>x\<bar>" and "\<bar>x\<bar> < 2 powi (e + 1)" and "- 1022 \<le> e"
  shows "roundDouble x =
     (let r = of_int (roundHalfEven (x / 2 powi (e - 52))) * 2 powi (e - 52)
      in if 2 ^ 1024 \<le> r then Infinity
         else if r \<le> - (2 ^ 1024) then NegInfinity
         else Num r)"
proof -
  have "0 < \<bar>x\<bar>"
    using assms(1) by (rule less_le_trans [rotated]) simp
  then have "x \<noteq> 0" by simp
  moreover have "exponent x = e" using assms by (rule exponent_eqI)
  ultimately show ?thesis by (simp add: roundDouble_def ulp_def)
qed

subsection \<open>The store\<close>

lemma updateSyncProgress_within:
  "withinTotal a b \<Longrightarrow>
     syncedWithinTotal
       (updateSyncProgress this \<lparr> UpdateSyncAction.inodesSynced = a, totalInodes = b \<rparr>)"
  by (simp add: syncedWithinTotal_def updateSyncProgress_def)

text \<open>One operation keeps the invariant when the sync state it delivers satisfies it.\<close>

lemma perform_within:
  assumes "syncedWithinTotal this" and "deliversWithinTotal op"
  shows "syncedWithinTotal (perform this op)"
proof (cases op)
  case (Init database)
  with assms show ?thesis
    by (auto simp add: init_def initiator_def stateWithinTotal_def
          updateSyncProgress_within split: sum.splits)
next
  case (SearchFor database params)
  with assms show ?thesis
    by (simp add: search_def Let_def updateSearchResults_def syncedWithinTotal_def
          split: sum.splits)
next
  case (GetLatest database params)
  with assms show ?thesis
    by (simp add: getLatest_def Let_def updateSearchResults_def syncedWithinTotal_def
          split: sum.splits)
next
  case (Clear database)
  with assms show ?thesis
    by (simp add: clear_def syncedWithinTotal_def split: sum.splits)
next
  case (SyncEvent err syncState)
  with assms show ?thesis
    by (cases err; cases syncState)
       (simp_all add: startSync_callback_def stateWithinTotal_def updateSyncProgress_within)
qed

lemma foldl_perform_within:
  "syncedWithinTotal this \<Longrightarrow> list_all deliversWithinTotal ops
     \<Longrightarrow> syncedWithinTotal (foldl perform this ops)"
  by (induction ops arbitrary: this) (simp_all add: perform_within)

lemma new_InodeStore_within: "syncedWithinTotal (new_InodeStore r c p)"
  by (simp add: syncedWithinTotal_def new_InodeStore_def)

text \<open>
  What \<^verbatim>\<open>clear\<close> does to the store: after a purge that resolves the results are empty
  and every other field, \<open>pages\<close> among them, is as before; after a purge that rejects
  the store is as before and the promise is rejected with the same reason.
\<close>

lemma clear_resolved:
  "clearData database = Inr u \<Longrightarrow>
     clear database this
       = \<lparr> dispatched = [ClearData], settled = Inr (),
           store = this\<lparr> searchResults := [] \<rparr> \<rparr>"
  by (simp add: clear_def)

lemma clear_rejected:
  "clearData database = Inl reason \<Longrightarrow>
     clear database this
       = \<lparr> dispatched = [ClearData], settled = Inl reason, store = this \<rparr>"
  by (simp add: clear_def)

lemma freshStore_resultsPerPage: "resultsPerPage freshStore = Num 10"
  by (simp add: freshStore_def new_InodeStore_def)

section \<open>Construction\<close>

text \<open>
  Claim C3, as amended. For every owning context, scope identifier and page size, the
  store just constructed has sync progress \<open>{synced: 0, total: Infinity}\<close>, an empty
  sequence of results and the page size it was given; its page count is 1, the value of
  the field initialiser, and not 0.
\<close>

theorem new_InodeStore_initial:
  "InodeStore.inodesSynced (new_InodeStore r c p) = Num 0
   \<and> totalInodesToSync (new_InodeStore r c p) = Infinity
   \<and> searchResults (new_InodeStore r c p) = []
   \<and> pages (new_InodeStore r c p) = Num 1
   \<and> resultsPerPage (new_InodeStore r c p) = p
   \<and> db (new_InodeStore r c p) = InodeDatabase c"
  by (simp add: new_InodeStore_def)

text \<open>
  Claim C3 as written asks for a page count of 0 before any operation. The store
  constructed with ten results per page has a page count that is not 0.
\<close>

theorem new_InodeStore_pages_not_zero: "pages freshStore \<noteq> Num 0"
  by (simp add: freshStore_def new_InodeStore_def)

section \<open>The completion indicator\<close>

text \<open>
  Claim C4. In every state of the store the getter \<^verbatim>\<open>isDbSyncing\<close> holds if and only
  if \<open>inodesSynced\<close> equals \<open>totalInodesToSync\<close>. The one state excluded is that with
  NaN in both fields, which \<^verbatim>\<open>===\<close> does not take as equal and which is no sync
  progress of the data model (a count or unbounded). Starting from a store just
  constructed, whose total is unbounded, the indicator is false after the event
  \<open>{synced: 5, total: 20}\<close> and true after the further event \<open>{synced: 20, total: 20}\<close>.
\<close>

theorem isDbSyncing_iff_equal:
  assumes "\<not> (InodeStore.inodesSynced this = NaN \<and> totalInodesToSync this = NaN)"
  shows "(isDbSyncing this \<longleftrightarrow> InodeStore.inodesSynced this = totalInodesToSync this)
    \<and> \<not> isDbSyncing (run (new_InodeStore r c p)
          [SyncEvent None (Some \<lparr> numSynced = Num 5, SyncState.total = Num 20 \<rparr>)])
    \<and> isDbSyncing (run (new_InodeStore r c p)
          [SyncEvent None (Some \<lparr> numSynced = Num 5, SyncState.total = Num 20 \<rparr>),
           SyncEvent None (Some \<lparr> numSynced = Num 20, SyncState.total = Num 20 \<rparr>)])"
  using assms
  by (auto simp add: isDbSyncing_def strictEquals_iff run_def startSync_callback_def
        updateSyncProgress_def new_InodeStore_def)

text \<open>
  The store just constructed is not in the excluded state; there \<open>0\<close> differs from
  \<open>Infinity\<close> and the indicator is false.
\<close>

theorem isDbSyncing_iff_equal_witness:
  "\<not> (InodeStore.inodesSynced freshStore = NaN \<and> totalInodesToSync freshStore = NaN)
   \<and> \<not> isDbSyncing freshStore
   \<and> InodeStore.inodesSynced freshStore \<noteq> totalInodesToSync freshStore
   \<and> \<not> isDbSyncing (run freshStore
          [SyncEvent None (Some \<lparr> numSynced = Num 5, SyncState.total = Num 20 \<rparr>)])
   \<and> isDbSyncing (run freshStore
          [SyncEvent None (Some \<lparr> numSynced = Num 5, SyncState.total = Num 20 \<rparr>),
           SyncEvent None (Some \<lparr> numSynced = Num 20, SyncState.total = Num 20 \<rparr>)])"
proof -
  have fields: "InodeStore.inodesSynced freshStore = Num 0"
    "totalInodesToSync freshStore = Infinity"
    by (simp_all add: freshStore_def new_InodeStore_def)
  then have h: "\<not> (InodeStore.inodesSynced freshStore = NaN
                    \<and> totalInodesToSync freshStore = NaN)"
    by simp
  show ?thesis
    using h fields isDbSyncing_iff_equal [OF h, of "()" "''0xabc''" "Num 10"]
    by (simp add: freshStore_def)
qed

section \<open>Queries\<close>

text \<open>
  Claim C5, as amended. For every whole page size \<open>P > 0\<close> and whole page index
  \<open>i \<ge> 0\<close> whose product is at most \<open>2\<^sup>5\<^sup>3\<close>, a search and a request for the latest
  inodes each issue exactly one call to the database, with limit \<open>P\<close> and offset
  \<open>P * i\<close>, and settle as the database answers at these very arguments.
\<close>

theorem queries_dispatch_limit_offset:
  fixes P i :: int
  assumes "resultsPerPage this = Num (of_int P)" and "0 < P" and "0 \<le> i"
    and "P * i \<le> 2 ^ 53"
  shows "dispatched (search database this \<lparr> query = q, page = Num (of_int i) \<rparr>)
           = [Search q (Num (of_int P)) (Num (of_int (P * i)))]
     \<and> settled (search database this \<lparr> query = q, page = Num (of_int i) \<rparr>)
           = (case db_search database q (Num (of_int P)) (Num (of_int (P * i))) of
                Inl reason \<Rightarrow> Inl reason | Inr results \<Rightarrow> Inr ())
     \<and> dispatched (getLatest database' this \<lparr> page = Num (of_int i) \<rparr>)
           = [Latest (Num (of_int P)) (Num (of_int (P * i)))]
     \<and> settled (getLatest database' this \<lparr> page = Num (of_int i) \<rparr>)
           = (case db_latest database' (Num (of_int P)) (Num (of_int (P * i))) of
                Inl reason \<Rightarrow> Inl reason | Inr results \<Rightarrow> Inr ())"
proof -
  have "0 \<le> P * i" using assms(2,3) by simp
  with assms(4) have "\<bar>P * i\<bar> \<le> 2 ^ 53" by simp
  then have "mul (Num (of_int P)) (Num (of_int i)) = Num (of_int (P * i))"
    by (rule mul_whole)
  with assms(1) show ?thesis
    by (simp add: search_def getLatest_def Let_def split: sum.splits)
qed

text \<open>
  With ten results per page, the third page (index 2) is requested with limit 10 and
  offset 20, from a database that rejects and from one that answers.
\<close>

theorem queries_dispatch_limit_offset_witness:
  "resultsPerPage freshStore = Num 10 \<and> (0::int) < 10 \<and> (0::int) \<le> 2
   \<and> (10::int) * 2 \<le> 2 ^ 53
   \<and> dispatched (search rejectingDatabase freshStore \<lparr> query = ''cats'', page = Num 2 \<rparr>)
        = [Search ''cats'' (Num 10) (Num 20)]
   \<and> settled (search rejectingDatabase freshStore \<lparr> query = ''cats'', page = Num 2 \<rparr>)
        = Inl (Error ''unavailable'')
   \<and> dispatched (getLatest answeringDatabase freshStore \<lparr> page = Num 2 \<rparr>)
        = [Latest (Num 10) (Num 20)]
   \<and> settled (getLatest answeringDatabase freshStore \<lparr> page = Num 2 \<rparr>) = Inr ()"
proof -
  have h: "resultsPerPage freshStore = Num (of_int 10)"
    by (simp add: freshStore_resultsPerPage)
  have p: "(0::int) < 10" and i: "(0::int) \<le> 2" and b: "(10::int) * 2 \<le> 2 ^ 53"
    by simp_all
  show ?thesis
    using h p i b
      queries_dispatch_limit_offset
        [where this = freshStore and P = 10 and i = 2 and database = rejectingDatabase
           and q = "''cats''" and database' = answeringDatabase, OF h p i b]
    by (simp add: rejectingDatabase_def answeringDatabase_def)
qed

text \<open>
  Claim C5 as written has the offset \<open>P * i\<close> for every \<open>P > 0\<close> and \<open>i \<ge> 0\<close>. With
  the page size and the page index both 94906267 the product is 9007199515875289,
  above \<open>2\<^sup>5\<^sup>3\<close> and odd; the offset sent, for a search and for the latest inodes, is
  the double 9007199515875288.
\<close>

theorem offset_rounded_above_2_53:
  "dispatched (search answeringDatabase wideStore wideSearch)
      = [Search ''cats'' (Num 94906267) (Num 9007199515875288)]
   \<and> dispatched (search answeringDatabase wideStore wideSearch)
      \<noteq> [Search ''cats'' (Num 94906267) (Num (94906267 * 94906267))]
   \<and> dispatched (getLatest answeringDatabase wideStore wideLatest)
      = [Latest (Num 94906267) (Num 9007199515875288)]
   \<and> dispatched (getLatest answeringDatabase wideStore wideLatest)
      \<noteq> [Latest (Num 94906267) (Num (94906267 * 94906267))]"
proof -
  have "roundDouble 9007199515875289 = Num 9007199515875288"
    by (subst roundDouble_at [where e = 53]) (simp_all add: roundHalfEven_def)
  then have "mul (Num 94906267) (Num 94906267) = Num 9007199515875288"
    by simp
  then show ?thesis
    by (simp add: search_def getLatest_def Let_def wideStore_def wideSearch_def wideLatest_def
          new_InodeStore_def answeringDatabase_def)
qed

text \<open>
  Claim C6, as amended. For every whole page size \<open>0 < P \<le> 2\<^sup>5\<^sup>3\<close> and every whole
  returned total count \<open>0 \<le> t < 2\<^sup>5\<^sup>3\<close>, applying a query result stores the page count
  \<open>\<lceil>t / P\<rceil>\<close>: in \<^verbatim>\<open>updateSearchResults\<close> itself, and in a search and a request for
  the latest inodes whose call to the database resolves with that total. A total
  count of 0 gives the page count 0.
\<close>

theorem pages_is_ceiling:
  fixes P t :: int
  assumes "resultsPerPage this = Num (of_int P)" and "0 < P" and "P \<le> 2 ^ 53"
    and "0 \<le> t" and "t < 2 ^ 53"
  shows "pages (updateSearchResults this \<lparr> data = items, total = Num (of_int t) \<rparr>)
           = Num (of_int \<lceil>real_of_int t / of_int P\<rceil>)
     \<and> (db_search database (query sp) (Num (of_int P))
            (mul (Num (of_int P)) (SearchParams.page sp))
           = Inr \<lparr> Pageable.data = items, Pageable.total = Num (of_int t) \<rparr>
         \<longrightarrow> pages (store (search database this sp))
               = Num (of_int \<lceil>real_of_int t / of_int P\<rceil>))
     \<and> (db_latest database (Num (of_int P))
            (mul (Num (of_int P)) (GetLatestParams.page lp))
           = Inr \<lparr> Pageable.data = items, Pageable.total = Num (of_int t) \<rparr>
         \<longrightarrow> pages (store (getLatest database this lp))
               = Num (of_int \<lceil>real_of_int t / of_int P\<rceil>))
     \<and> pages (updateSearchResults this \<lparr> data = items, total = Num 0 \<rparr>) = Num 0"
proof -
  have c: "Math_ceil (divide (Num (of_int t)) (Num (of_int P)))
      = Num (of_int \<lceil>real_of_int t / of_int P\<rceil>)"
    using assms(4,5,2,3) by (rule Math_ceil_divide_whole)
  have z: "Math_ceil (divide (Num 0) (Num (of_int P))) = Num 0"
    using assms(2) by (simp add: roundDouble_def)
  show ?thesis
    using assms(1) c z
    by (simp add: updateSearchResults_def search_def getLatest_def Let_def)
qed

text \<open>
  With ten results per page and seven inodes returned out of 27, the page count is 3,
  for a search and for the latest inodes.
\<close>

theorem pages_is_ceiling_witness:
  "resultsPerPage freshStore = Num 10 \<and> (0::int) < 10 \<and> (10::int) \<le> 2 ^ 53
   \<and> (0::int) \<le> 27 \<and> (27::int) < 2 ^ 53
   \<and> pages (updateSearchResults freshStore \<lparr> data = sevenInodes, total = Num 27 \<rparr>) = Num 3
   \<and> db_search answeringDatabase (query catsThirdPage) (Num 10)
        (mul (Num 10) (SearchParams.page catsThirdPage))
        = Inr \<lparr> Pageable.data = sevenInodes, Pageable.total = Num 27 \<rparr>
   \<and> pages (store (search answeringDatabase freshStore catsThirdPage)) = Num 3
   \<and> db_latest answeringDatabase (Num 10) (mul (Num 10) (GetLatestParams.page thirdPage))
        = Inr \<lparr> Pageable.data = sevenInodes, Pageable.total = Num 27 \<rparr>
   \<and> pages (store (getLatest answeringDatabase freshStore thirdPage)) = Num 3
   \<and> pages (updateSearchResults freshStore \<lparr> data = sevenInodes, total = Num 0 \<rparr>) = Num 0"
proof -
  have h: "resultsPerPage freshStore = Num (of_int 10)"
    by (simp add: freshStore_resultsPerPage)
  have p: "(0::int) < 10" and p': "(10::int) \<le> 2 ^ 53"
    and t: "(0::int) \<le> 27" and t': "(27::int) < 2 ^ 53"
    by simp_all
  have s: "db_search answeringDatabase (query catsThirdPage) (Num 10)
        (mul (Num 10) (SearchParams.page catsThirdPage))
        = Inr \<lparr> Pageable.data = sevenInodes, Pageable.total = Num 27 \<rparr>"
    and l: "db_latest answeringDatabase (Num 10) (mul (Num 10) (GetLatestParams.page thirdPage))
        = Inr \<lparr> Pageable.data = sevenInodes, Pageable.total = Num 27 \<rparr>"
    by (simp_all add: answeringDatabase_def sevenInodes_def)
  show ?thesis
    using h p p' t t' s l
      pages_is_ceiling
        [where this = freshStore and P = 10 and t = 27 and items = sevenInodes
           and database = answeringDatabase and sp = catsThirdPage and lp = thirdPage,
         OF h p p' t t']
    by simp
qed

text \<open>
  Claim C6 as written has the page count \<open>\<lceil>t / P\<rceil>\<close> for every \<open>P > 0\<close> and
  \<open>t \<ge> 0\<close>. With three results per page and a total of 13510798882111492, a double above
  \<open>2\<^sup>5\<^sup>3\<close>, the quotient is rounded down to the double 4503599627370497 before the
  ceiling is taken, and that is the page count stored; the ceiling of the exact
  quotient is 4503599627370498.
\<close>

theorem pages_rounded_above_2_53:
  "pages (updateSearchResults tripleStore
            \<lparr> data = sevenInodes, total = Num 13510798882111492 \<rparr>)
      = Num 4503599627370497
   \<and> pages (updateSearchResults tripleStore
            \<lparr> data = sevenInodes, total = Num 13510798882111492 \<rparr>)
      \<noteq> Num (of_int \<lceil>(13510798882111492 :: real) / 3\<rceil>)"
proof -
  have "roundDouble (13510798882111492 / 3) = Num 4503599627370497"
    by (subst roundDouble_at [where e = 52]) (simp_all add: roundHalfEven_def)
  then have "Math_ceil (divide (Num 13510798882111492) (Num 3)) = Num 4503599627370497"
    by simp
  then show ?thesis
    by (simp add: updateSearchResults_def tripleStore_def new_InodeStore_def)
qed

text \<open>
  Claim C7. When the database rejects the call that a search, or a request for the
  latest inodes, has issued, the promise of the method is rejected with the same
  reason and the store is exactly as it was before the call: the results and the page
  count with it.
\<close>

theorem rejected_query_keeps_store:
  assumes "dispatched (search database this sp) = [Search q limit offset]"
    and "db_search database q limit offset = Inl reason"
    and "dispatched (getLatest database' this lp) = [Latest limit' offset']"
    and "db_latest database' limit' offset' = Inl reason'"
  shows "settled (search database this sp) = Inl reason
     \<and> store (search database this sp) = this
     \<and> settled (getLatest database' this lp) = Inl reason'
     \<and> store (getLatest database' this lp) = this"
  using assms by (auto simp add: search_def getLatest_def Let_def split: sum.splits)

text \<open>
  The database that rejects every call rejects the third page of a search and of the
  latest inodes; both promises carry its reason and the store is unchanged.
\<close>

theorem rejected_query_keeps_store_witness:
  "dispatched (search rejectingDatabase freshStore catsThirdPage)
      = [Search ''cats'' (Num 10) (Num 20)]
   \<and> db_search rejectingDatabase ''cats'' (Num 10) (Num 20) = Inl (Error ''unavailable'')
   \<and> dispatched (getLatest rejectingDatabase freshStore thirdPage)
      = [Latest (Num 10) (Num 20)]
   \<and> db_latest rejectingDatabase (Num 10) (Num 20) = Inl (Error ''unavailable'')
   \<and> settled (search rejectingDatabase freshStore catsThirdPage) = Inl (Error ''unavailable'')
   \<and> store (search rejectingDatabase freshStore catsThirdPage) = freshStore
   \<and> settled (getLatest rejectingDatabase freshStore thirdPage) = Inl (Error ''unavailable'')
   \<and> store (getLatest rejectingDatabase freshStore thirdPage) = freshStore"
proof -
  have m: "roundDouble 20 = Num 20"
    using roundDouble_of_int [of 20] by simp
  have s: "dispatched (search rejectingDatabase freshStore catsThirdPage)
      = [Search ''cats'' (Num 10) (Num 20)]"
    by (simp add: search_def Let_def rejectingDatabase_def catsThirdPage_def
          freshStore_resultsPerPage m)
  have sr: "db_search rejectingDatabase ''cats'' (Num 10) (Num 20)
      = Inl (Error ''unavailable'')"
    by (simp add: rejectingDatabase_def)
  have l: "dispatched (getLatest rejectingDatabase freshStore thirdPage)
      = [Latest (Num 10) (Num 20)]"
    by (simp add: getLatest_def Let_def rejectingDatabase_def thirdPage_def
          freshStore_resultsPerPage m)
  have lr: "db_latest rejectingDatabase (Num 10) (Num 20) = Inl (Error ''unavailable'')"
    by (simp add: rejectingDatabase_def)
  show ?thesis
    using s sr l lr rejected_query_keeps_store [OF s sr l lr] by simp
qed

text \<open>
  Claim C10. A search and a request for the latest inodes leave \<open>inodesSynced\<close> and
  \<open>totalInodesToSync\<close> as they were, whatever the database answers.
\<close>

theorem queries_keep_sync_progress:
  "InodeStore.inodesSynced (store (search database this sp)) = InodeStore.inodesSynced this
   \<and> totalInodesToSync (store (search database this sp)) = totalInodesToSync this
   \<and> InodeStore.inodesSynced (store (getLatest database this lp))
        = InodeStore.inodesSynced this
   \<and> totalInodesToSync (store (getLatest database this lp)) = totalInodesToSync this"
  by (simp add: search_def getLatest_def Let_def updateSearchResults_def split: sum.splits)

section \<open>Clearing\<close>

text \<open>
  Claim C1 asks that after a purge that resolves the page count is 0. A store with ten
  results per page that has loaded the third page of 27 inodes has the page count 3;
  \<^verbatim>\<open>clear\<close> against a database whose purge resolves empties the results and leaves the
  page count at 3.
\<close>

theorem clear_keeps_stale_pages:
  "pages (store (getLatest answeringDatabase freshStore thirdPage)) = Num 3
   \<and> settled (clear answeringDatabase
        (store (getLatest answeringDatabase freshStore thirdPage))) = Inr ()
   \<and> searchResults (store (clear answeringDatabase
        (store (getLatest answeringDatabase freshStore thirdPage)))) = []
   \<and> pages (store (clear answeringDatabase
        (store (getLatest answeringDatabase freshStore thirdPage)))) = Num 3"
proof -
  have "Math_ceil (divide (Num 27) (Num 10)) = Num 3"
    using Math_ceil_divide_whole [of 27 10] by simp
  then show ?thesis
    by (simp add: clear_def getLatest_def Let_def updateSearchResults_def
          answeringDatabase_def freshStore_def new_InodeStore_def thirdPage_def)
qed

section \<open>Initialisation and sync events\<close>

text \<open>
  Claim C2, as amended. When the first fetch of the sync state rejects, nothing in
  \<^verbatim>\<open>init\<close> catches the rejection: it settles the promise of the closure, which
  \<^verbatim>\<open>init\<close> has dropped. \<^verbatim>\<open>init\<close> itself returns normally to its caller, the store is
  unchanged and \<^verbatim>\<open>startSync\<close> is not called.
\<close>

theorem init_rejection_on_dropped_promise:
  assumes "getSyncState database = Inl reason"
  shows "init database this
    = (Inr (), \<lparr> dispatched = [GetSyncState], settled = Inl reason, store = this \<rparr>)"
  using assms by (simp add: init_def initiator_def)

text \<open>The database that rejects every call, and the store just constructed.\<close>

theorem init_rejection_on_dropped_promise_witness:
  "getSyncState rejectingDatabase = Inl (Error ''unavailable'')
   \<and> init rejectingDatabase freshStore
        = (Inr (), \<lparr> dispatched = [GetSyncState], settled = Inl (Error ''unavailable''),
                     store = freshStore \<rparr>)"
proof -
  have h: "getSyncState rejectingDatabase = Inl (Error ''unavailable'')"
    by (simp add: rejectingDatabase_def)
  show ?thesis
    using h init_rejection_on_dropped_promise [OF h, of freshStore] by simp
qed

text \<open>
  Claim C2 as written has the caller of \<^verbatim>\<open>init\<close> observe the rejection. Against the
  database whose fetch rejects, what the caller gets is not that rejection.
\<close>

theorem init_caller_gets_no_rejection:
  "getSyncState rejectingDatabase = Inl (Error ''unavailable'')
   \<and> fst (init rejectingDatabase freshStore) \<noteq> Inl (Error ''unavailable'')"
  by (simp add: rejectingDatabase_def init_def)

text \<open>
  Claim C8. The callback registered with \<^verbatim>\<open>startSync\<close>: called with an error, whatever
  else it carries, it logs one warning and returns with the store unchanged; called
  with neither an error nor a sync state it throws \<^verbatim>\<open>Error("Result must exist")\<close>;
  called with a sync state and no error it returns the store with \<open>inodesSynced\<close> and
  \<open>totalInodesToSync\<close> replaced by the two fields of that sync state, in one step and
  with nothing logged.
\<close>

theorem startSync_callback_cases:
  "startSync_callback this (Some e) syncState
      = (Inr (), [Warn ''Error while syncing:'' e], this)
   \<and> startSync_callback this None None = (Inl (Error ''Result must exist''), [], this)
   \<and> startSync_callback this None (Some state)
      = (Inr (), [],
         this\<lparr> InodeStore.inodesSynced := numSynced state,
               totalInodesToSync := SyncState.total state \<rparr>)"
  by (simp add: startSync_callback_def updateSyncProgress_def)

section \<open>The invariant of sync progress\<close>

text \<open>
  Claim C9, as amended. The store applies the sync states of the database as they
  come, without comparing the two fields. If every sync state delivered, by the first
  fetch of \<^verbatim>\<open>init\<close> and by the events, has \<open>synced \<le> total\<close> whenever its total is
  finite, then so has the store after any sequence of operations and events from its
  construction.
\<close>

theorem run_keeps_synced_within_total:
  assumes "list_all deliversWithinTotal ops"
  shows "syncedWithinTotal (run (new_InodeStore r c p) ops)"
  unfolding run_def using new_InodeStore_within assms by (rule foldl_perform_within)

text \<open>
  A run of four steps: initialisation at 5 of 20, an event at 20 of 20, a request for
  the latest inodes and an event that carries an error.
\<close>

theorem run_keeps_synced_within_total_witness:
  "list_all deliversWithinTotal
     [Init answeringDatabase,
      SyncEvent None (Some \<lparr> numSynced = Num 20, SyncState.total = Num 20 \<rparr>),
      GetLatest answeringDatabase thirdPage,
      SyncEvent (Some (Error ''offline'')) None]
   \<and> syncedWithinTotal (run freshStore
     [Init answeringDatabase,
      SyncEvent None (Some \<lparr> numSynced = Num 20, SyncState.total = Num 20 \<rparr>),
      GetLatest answeringDatabase thirdPage,
      SyncEvent (Some (Error ''offline'')) None])"
proof -
  have h: "list_all deliversWithinTotal
     [Init answeringDatabase,
      SyncEvent None (Some \<lparr> numSynced = Num 20, SyncState.total = Num 20 \<rparr>),
      GetLatest answeringDatabase thirdPage,
      SyncEvent (Some (Error ''offline'')) None]"
    by (simp add: answeringDatabase_def stateWithinTotal_def)
  show ?thesis
    using h run_keeps_synced_within_total [OF h, of "()" "''0xabc''" "Num 10"]
    by (simp add: freshStore_def)
qed

text \<open>
  Claim C9 as written holds of no store that is sent a sync state with more synced
  than the total: after initialisation and an event \<open>{synced: 30, total: 20}\<close> the total
  is finite and \<open>synced \<le> total\<close> is false.
\<close>

theorem event_breaks_synced_within_total:
  "\<not> syncedWithinTotal (run freshStore
     [Init answeringDatabase,
      SyncEvent None (Some \<lparr> numSynced = Num 30, SyncState.total = Num 20 \<rparr>)])"
  by (simp add: run_def freshStore_def new_InodeStore_def answeringDatabase_def init_def
        initiator_def startSync_callback_def updateSyncProgress_def syncedWithinTotal_def)

end
